theory Spec2Isabelle
  imports Complex_Main
begin

section \<open>Attendance ledger and aggregation\<close>

subsection \<open>Records and dates\<close>

text \<open>
  An attendance record as \<^verbatim>\<open>server.js\<close> stores it. The field \<open>timestamp\<close> holds the
  time value of \<^verbatim>\<open>new Date(r.timestamp)\<close> in milliseconds since the epoch; \<open>None\<close> is
  the Invalid Date (time value NaN) that an unparseable string yields. The action is
  whatever string the request body carried.
\<close>

record att_record =
  rec_id :: int
  userId :: int
  username :: string
  action :: string
  timestamp :: "int option"
  location :: string

type_synonym jsdate = "int option"

text \<open>
  The local time zone adjustment of the host (offset in milliseconds at a given instant)
  is a parameter of everything that reads local hours or local calendar days.
\<close>

type_synonym tzone = "int \<Rightarrow> int"

definition msPerHour :: int where
  "msPerHour = 60 * 60 * 1000"

definition msPerDay :: int where
  "msPerDay = 24 * 60 * 60 * 1000"

definition LocalTime :: "tzone \<Rightarrow> int \<Rightarrow> int" where
  "LocalTime tza t = t + tza t"

text \<open>\<^verbatim>\<open>getHours()\<close>: the local hour 0..23, NaN (\<open>None\<close>) on an Invalid Date.\<close>

definition getHours :: "tzone \<Rightarrow> jsdate \<Rightarrow> nat option" where
  "getHours tza d =
     (case d of None \<Rightarrow> None
      | Some t \<Rightarrow> Some (nat ((LocalTime tza t div msPerHour) mod 24)))"

text \<open>
  \<^verbatim>\<open>toDateString()\<close> prints weekday, month, day and year of the local calendar day, one
  text per day, and the text \<^verbatim>\<open>Invalid Date\<close> on an Invalid Date. The text of a valid
  date is represented by the number of its local day.
\<close>

datatype date_string = Date_String int | Invalid_Date

definition toDateString :: "tzone \<Rightarrow> jsdate \<Rightarrow> date_string" where
  "toDateString tza d =
     (case d of None \<Rightarrow> Invalid_Date
      | Some t \<Rightarrow> Date_String (LocalTime tza t div msPerDay))"

text \<open>
  Relational comparison of two Date objects compares their time values as numbers;
  every comparison with NaN is false.
\<close>

definition date_ge :: "jsdate \<Rightarrow> jsdate \<Rightarrow> bool" where
  "date_ge a b = (case (a, b) of (Some x, Some y) \<Rightarrow> x \<ge> y | _ \<Rightarrow> False)"

definition date_le :: "jsdate \<Rightarrow> jsdate \<Rightarrow> bool" where
  "date_le a b = (case (a, b) of (Some x, Some y) \<Rightarrow> x \<le> y | _ \<Rightarrow> False)"

definition valid_timestamp :: "att_record \<Rightarrow> bool" where
  "valid_timestamp r = (timestamp r \<noteq> None)"

subsection \<open>The JSON file store of \<^verbatim>\<open>server.js\<close>\<close>

record log_entry =
  log_id :: int
  log_type :: string
  description :: string
  log_userId :: "int option"
  log_timestamp :: "int option"
  ipAddress :: string

text \<open>
  The two files the attendance routes touch. \<open>None\<close> is a file that \<^verbatim>\<open>fs.readJson\<close>
  cannot read; \<open>writable\<close> tells whether \<^verbatim>\<open>fs.writeJson\<close> succeeds.
\<close>

record db =
  attendance_json :: "att_record list option"
  logs_json :: "log_entry list option"
  writable :: bool

datatype io_error = IO_error

datatype error = Server_error | Invalid_report_type

definition readData_attendance :: "db \<Rightarrow> io_error + att_record list" where
  "readData_attendance d =
     (case attendance_json d of None \<Rightarrow> Inl IO_error | Some xs \<Rightarrow> Inr xs)"

definition writeData_attendance :: "db \<Rightarrow> att_record list \<Rightarrow> io_error + db" where
  "writeData_attendance d xs =
     (if writable d then Inr (d\<lparr>attendance_json := Some xs\<rparr>) else Inl IO_error)"

definition readData_logs :: "db \<Rightarrow> io_error + log_entry list" where
  "readData_logs d = (case logs_json d of None \<Rightarrow> Inl IO_error | Some xs \<Rightarrow> Inr xs)"

definition writeData_logs :: "db \<Rightarrow> log_entry list \<Rightarrow> io_error + db" where
  "writeData_logs d xs =
     (if writable d then Inr (d\<lparr>logs_json := Some xs\<rparr>) else Inl IO_error)"

text \<open>
  \<^verbatim>\<open>logActivity\<close> catches its own failures: the store is left as it is. The pair
  \<open>clock\<close> holds the two clock readings (\<^verbatim>\<open>Date.now()\<close>, \<^verbatim>\<open>new Date()\<close>).
\<close>

definition logActivity :: "db \<Rightarrow> string \<Rightarrow> string \<Rightarrow> int option \<Rightarrow> int \<times> int \<Rightarrow> db" where
  "logActivity d type descr uid clock =
     (case readData_logs d of
        Inl e \<Rightarrow> d
      | Inr logs \<Rightarrow>
          (case writeData_logs d
                  (logs @ [\<lparr>log_id = fst clock, log_type = type, description = descr,
                            log_userId = uid, log_timestamp = Some (snd clock),
                            ipAddress = ''127.0.0.1''\<rparr>]) of
             Inl e \<Rightarrow> d
           | Inr d' \<Rightarrow> d'))"

text \<open>The authenticated identity \<^verbatim>\<open>req.user\<close> that the token middleware supplies.\<close>

record jwt_user =
  user_id :: int
  user_name :: string
  role :: string

text \<open>\<^verbatim>\<open>GET /api/attendance\<close>.\<close>

definition get_attendance :: "db \<Rightarrow> error + att_record list" where
  "get_attendance d =
     (case readData_attendance d of
        Inl e \<Rightarrow> Inl Server_error
      | Inr attendance \<Rightarrow> Inr attendance)"

text \<open>
  \<^verbatim>\<open>POST /api/attendance\<close>, after authentication. \<open>now_id\<close> and \<open>now_ts\<close> are the clock
  readings for the id and the timestamp, \<open>log_clock\<close> those of the activity log. The
  timestamp is stored as the ISO text of its clock reading, which parses back to the same
  time value. The result is the new store and either status 500 or status 201 with the
  record.
\<close>

definition post_attendance ::
  "db \<Rightarrow> jwt_user \<Rightarrow> string \<Rightarrow> int \<Rightarrow> int \<Rightarrow> int \<times> int \<Rightarrow> db \<times> (error + att_record)" where
  "post_attendance d user act now_id now_ts log_clock =
     (case readData_attendance d of
        Inl e \<Rightarrow> (d, Inl Server_error)
      | Inr attendance \<Rightarrow>
          (let record = \<lparr>rec_id = now_id, userId = user_id user, username = user_name user,
                         action = act, timestamp = Some now_ts, location = ''Office''\<rparr>
           in case writeData_attendance d (attendance @ [record]) of
                Inl e \<Rightarrow> (d, Inl Server_error)
              | Inr d' \<Rightarrow>
                  (logActivity d' ''attendance'' (user_name user @ '' '' @ act)
                     (Some (user_id user)) log_clock,
                   Inr record)))"

text \<open>
  The other write path to the same file, \<^verbatim>\<open>SuperDatabase.writeData\<close>, first runs
  \<^verbatim>\<open>validateData\<close> on every record and throws when it reports an error. These are
  the messages \<^verbatim>\<open>validateData('attendance', data)\<close> pushes for the field
  \<^verbatim>\<open>action\<close>, whose rule is \<^verbatim>\<open>{ required: true, enum: ['sign-in', 'sign-out'] }\<close>.
\<close>

definition validateData_action :: "string \<Rightarrow> string list" where
  "validateData_action val =
     (if val = [] then [''action is required'']
      else if val \<notin> set [''sign-in'', ''sign-out'']
        then [''action must be one of: sign-in, sign-out'']
      else [])"

subsection \<open>Window reports of \<^verbatim>\<open>server.js\<close>\<close>

record report =
  report_type :: string
  period :: string
  totalRecords :: nat
  report_signIns :: nat
  report_signOuts :: nat
  report_records :: "att_record list"

text \<open>
  The request of \<^verbatim>\<open>GET /api/reports/:type\<close>: the path parameter and the query string.
  The handler reads the path parameter only.
\<close>

record report_request =
  param_type :: string
  query :: "(string \<times> string) list"

text \<open>The \<^verbatim>\<open>switch (type)\<close> of the handler; \<open>None\<close> is its \<^verbatim>\<open>default\<close> branch.\<close>

definition filterByWindow ::
  "tzone \<Rightarrow> string \<Rightarrow> int \<Rightarrow> att_record list \<Rightarrow> att_record list option" where
  "filterByWindow tza type now attendance =
     (if type = ''daily'' then
        (let today = toDateString tza (Some now)
         in Some (filter (\<lambda>r. toDateString tza (timestamp r) = today) attendance))
      else if type = ''weekly'' then
        (let weekAgo = Some (now - 7 * 24 * 60 * 60 * 1000)
         in Some (filter (\<lambda>r. date_ge (timestamp r) weekAgo) attendance))
      else if type = ''monthly'' then
        (let monthAgo = Some (now - 30 * 24 * 60 * 60 * 1000)
         in Some (filter (\<lambda>r. date_ge (timestamp r) monthAgo) attendance))
      else None)"

definition get_report :: "tzone \<Rightarrow> db \<Rightarrow> report_request \<Rightarrow> int \<Rightarrow> error + report" where
  "get_report tza d req now =
     (let type = param_type req
      in case readData_attendance d of
           Inl e \<Rightarrow> Inl Server_error
         | Inr attendance \<Rightarrow>
             (case filterByWindow tza type now attendance of
                None \<Rightarrow> Inl Invalid_report_type
              | Some filteredRecords \<Rightarrow>
                  Inr \<lparr>report_type = type, period = type,
                       totalRecords = length filteredRecords,
                       report_signIns =
                         length (filter (\<lambda>r. action r = ''sign-in'') filteredRecords),
                       report_signOuts =
                         length (filter (\<lambda>r. action r = ''sign-out'') filteredRecords),
                       report_records = filteredRecords\<rparr>))"

subsection \<open>Breakdowns\<close>

text \<open>
  The hourly breakdown is a JavaScript object whose property names are the texts of the
  hours, and \<^verbatim>\<open>NaN\<close> for an Invalid Date. An object enumerates its integer-like
  property names in ascending numeric order, then its other names in creation order;
  the object is the list of its properties in that order.
\<close>

datatype hour_key = Hour nat | NaN_key

fun key_before :: "hour_key \<Rightarrow> hour_key \<Rightarrow> bool" where
  "key_before (Hour a) (Hour b) = (a < b)"
| "key_before (Hour a) NaN_key = True"
| "key_before NaN_key k = False"

fun put_hour :: "hour_key \<Rightarrow> nat \<Rightarrow> (hour_key \<times> nat) list \<Rightarrow> (hour_key \<times> nat) list" where
  "put_hour k v [] = [(k, v)]"
| "put_hour k v ((k', v') # xs) =
     (if k = k' then (k, v) # xs
      else if key_before k k' then (k, v) # (k', v') # xs
      else (k', v') # put_hour k v xs)"

definition hour_key_of :: "nat option \<Rightarrow> hour_key" where
  "hour_key_of h = (case h of None \<Rightarrow> NaN_key | Some n \<Rightarrow> Hour n)"

text \<open>\<^verbatim>\<open>breakdown[hour] = (breakdown[hour] || 0) + 1\<close>.\<close>

definition count_hour ::
  "tzone \<Rightarrow> att_record \<Rightarrow> (hour_key \<times> nat) list \<Rightarrow> (hour_key \<times> nat) list" where
  "count_hour tza record breakdown =
     (let hour = hour_key_of (getHours tza (timestamp record))
      in put_hour hour
           ((case map_of breakdown hour of None \<Rightarrow> 0 | Some c \<Rightarrow> c) + 1) breakdown)"

definition getHourlyBreakdown :: "tzone \<Rightarrow> att_record list \<Rightarrow> (hour_key \<times> nat) list" where
  "getHourlyBreakdown tza records = fold (count_hour tza) records []"

text \<open>
  Properties named by other texts (date strings) are enumerated in creation order: a new
  name goes to the end, an existing one keeps its place.
\<close>

fun put_str :: "'k \<Rightarrow> 'v \<Rightarrow> ('k \<times> 'v) list \<Rightarrow> ('k \<times> 'v) list" where
  "put_str k v [] = [(k, v)]"
| "put_str k v ((k', v') # xs) =
     (if k = k' then (k, v) # xs else (k', v') # put_str k v xs)"

record counts =
  signIns :: nat
  signOuts :: nat

text \<open>
  \<^verbatim>\<open>breakdown[key][record.action === 'sign-in' ? 'signIns' : 'signOuts']++\<close> on the
  bucket of the key, created with both counters 0 when absent.
\<close>

definition bump :: "att_record \<Rightarrow> counts option \<Rightarrow> counts" where
  "bump record bucket =
     (let c = (case bucket of None \<Rightarrow> \<lparr>signIns = 0, signOuts = 0\<rparr> | Some c \<Rightarrow> c)
      in if action record = ''sign-in'' then c\<lparr>signIns := signIns c + 1\<rparr>
         else c\<lparr>signOuts := signOuts c + 1\<rparr>)"

definition count_day ::
  "tzone \<Rightarrow> att_record \<Rightarrow> (date_string \<times> counts) list \<Rightarrow> (date_string \<times> counts) list" where
  "count_day tza record breakdown =
     (let date = toDateString tza (timestamp record)
      in put_str date (bump record (map_of breakdown date)) breakdown)"

definition getDailyBreakdown :: "tzone \<Rightarrow> att_record list \<Rightarrow> (date_string \<times> counts) list" where
  "getDailyBreakdown tza records = fold (count_day tza) records []"

text \<open>
  The user breakdown is keyed by username. A username that names a property every object
  inherits finds that inherited value instead of a missing bucket, and the increment
  lands on the inherited value: the breakdown gets no property of its own.
\<close>

definition inherited_names :: "string list" where
  "inherited_names =
     [''constructor'', ''__proto__'', ''hasOwnProperty'', ''isPrototypeOf'',
      ''propertyIsEnumerable'', ''toLocaleString'', ''toString'', ''valueOf'',
      ''__defineGetter__'', ''__defineSetter__'', ''__lookupGetter__'',
      ''__lookupSetter__'']"

definition count_user :: "att_record \<Rightarrow> (string \<rightharpoonup> counts) \<Rightarrow> (string \<rightharpoonup> counts)" where
  "count_user record breakdown =
     (if username record \<in> set inherited_names then breakdown
      else breakdown(username record \<mapsto> bump record (breakdown (username record))))"

definition getUserBreakdown :: "att_record list \<Rightarrow> (string \<rightharpoonup> counts)" where
  "getUserBreakdown records = fold count_user records Map.empty"

subsection \<open>Peak hours\<close>

text \<open>
  \<^verbatim>\<open>.sort(([,a], [,b]) => b - a)\<close>: descending by count. The sort of an array is
  stable, so entries of equal count keep the order of the enumeration.
\<close>

definition sort_desc :: "('k \<times> nat) list \<Rightarrow> ('k \<times> nat) list" where
  "sort_desc entries = sort_key (\<lambda>e. - int (snd e)) entries"

definition parseInt :: "hour_key \<Rightarrow> nat option" where
  "parseInt k = (case k of Hour h \<Rightarrow> Some h | NaN_key \<Rightarrow> None)"

text \<open>
  \<^verbatim>\<open>Object.entries(hourCounts).sort(...).slice(0, topN).map(...)\<close>, the chain that
  \<^verbatim>\<open>calculatePeakHours\<close> runs with 5 and \<^verbatim>\<open>calculateAnalytics\<close> with 3; the chart
  of peak hours runs it with 8 and keeps the property names as labels.
\<close>

definition peakHours :: "nat \<Rightarrow> (hour_key \<times> nat) list \<Rightarrow> (nat option \<times> nat) list" where
  "peakHours topN hourCounts =
     map (\<lambda>(hour, count). (parseInt hour, count)) (take topN (sort_desc hourCounts))"

definition calculatePeakHours :: "tzone \<Rightarrow> att_record list \<Rightarrow> (nat option \<times> nat) list" where
  "calculatePeakHours tza records = peakHours 5 (getHourlyBreakdown tza records)"

subsection \<open>Client-side report data\<close>

text \<open>
  The analytics of \<^verbatim>\<open>calculateAnalytics\<close>, which repeats the code of the three
  breakdowns. Its constant fields (\<^verbatim>\<open>averageSessionTime\<close> 0, \<^verbatim>\<open>anomalies\<close> empty,
  and the counter \<^verbatim>\<open>totalHours\<close> 0 of every user bucket) are left out.
\<close>

record analytics =
  totalSignIns :: nat
  totalSignOuts :: nat
  uniqueUsers :: nat
  dailyBreakdown :: "(date_string \<times> counts) list"
  hourlyBreakdown :: "(hour_key \<times> nat) list"
  userBreakdown :: "string \<rightharpoonup> counts"
  analytics_peakHours :: "(nat option \<times> nat) list"

definition calculateAnalytics :: "tzone \<Rightarrow> att_record list \<Rightarrow> analytics" where
  "calculateAnalytics tza recs =
     \<lparr>totalSignIns = length (filter (\<lambda>r. action r = ''sign-in'') recs),
      totalSignOuts = length (filter (\<lambda>r. action r = ''sign-out'') recs),
      uniqueUsers = length (remdups (map username recs)),
      dailyBreakdown = getDailyBreakdown tza recs,
      hourlyBreakdown = getHourlyBreakdown tza recs,
      userBreakdown = getUserBreakdown recs,
      analytics_peakHours = peakHours 3 (getHourlyBreakdown tza recs)\<rparr>"

record report_data =
  data_type :: string
  data_dateRange :: "(jsdate \<times> jsdate) option"
  data_records :: "att_record list"
  data_analytics :: analytics
  generatedAt :: int
  data_totalRecords :: nat

text \<open>
  \<^verbatim>\<open>gatherReportData(type, dateRange, users, departments)\<close> over the records already
  fetched; it never reads \<^verbatim>\<open>departments\<close>. The bounds of the range are the Date
  objects made from its two texts; \<open>None\<close> is a \<^verbatim>\<open>null\<close> range, which is what the
  report form passes unless the type is \<^verbatim>\<open>custom\<close> and both bounds are filled in. The
  date filter is the code of \<^verbatim>\<open>filterRecordsByDateRange\<close>, written out once more there.
\<close>

definition filterRecordsByDateRange ::
  "att_record list \<Rightarrow> (jsdate \<times> jsdate) option \<Rightarrow> att_record list" where
  "filterRecordsByDateRange recs dateRange =
     (case dateRange of None \<Rightarrow> recs
      | Some (startDate, endDate) \<Rightarrow>
          filter (\<lambda>r. date_ge (timestamp r) startDate \<and> date_le (timestamp r) endDate) recs)"

definition gatherReportData ::
  "tzone \<Rightarrow> att_record list \<Rightarrow> string \<Rightarrow> (jsdate \<times> jsdate) option \<Rightarrow> string list option \<Rightarrow> int
     \<Rightarrow> report_data" where
  "gatherReportData tza fetched type dateRange users now =
     (let recs1 = filterRecordsByDateRange fetched dateRange;
          recs2 = (case users of
                     None \<Rightarrow> recs1
                   | Some us \<Rightarrow>
                       if length us > 0 then filter (\<lambda>r. username r \<in> set us) recs1
                       else recs1)
      in \<lparr>data_type = type, data_dateRange = dateRange, data_records = recs2,
          data_analytics = calculateAnalytics tza recs2, generatedAt = now,
          data_totalRecords = length recs2\<rparr>)"

text \<open>
  The range that the click handler of the report form builds from the selected type and
  the values of the two date inputs, an empty text when an input is not filled in.
\<close>

definition report_form_dateRange :: "string \<Rightarrow> string \<Rightarrow> string \<Rightarrow> (string \<times> string) option" where
  "report_form_dateRange type startDate endDate =
     (if type = ''custom'' then
        (if startDate \<noteq> [] \<and> endDate \<noteq> [] then Some (startDate, endDate) else None)
      else None)"

subsection \<open>Dashboard scores\<close>

record dashboard_data =
  allRecords :: "att_record list"
  todayRecords :: "att_record list"
  dash_hourlyBreakdown :: "(hour_key \<times> nat) list"
  dash_dailyBreakdown :: "(date_string \<times> counts) list"
  dash_userBreakdown :: "string \<rightharpoonup> counts"

text \<open>
  \<^verbatim>\<open>gatherDashboardData\<close> without its week and month lists, which no score below reads.
\<close>

definition gatherDashboardData :: "tzone \<Rightarrow> att_record list \<Rightarrow> int \<Rightarrow> dashboard_data" where
  "gatherDashboardData tza recs now =
     (let today = toDateString tza (Some now)
      in \<lparr>allRecords = recs,
          todayRecords = filter (\<lambda>r. toDateString tza (timestamp r) = today) recs,
          dash_hourlyBreakdown = getHourlyBreakdown tza recs,
          dash_dailyBreakdown = getDailyBreakdown tza recs,
          dash_userBreakdown = getUserBreakdown recs\<rparr>)"

definition calculateProductivityScore :: "dashboard_data \<Rightarrow> nat" where
  "calculateProductivityScore data =
     (let baseScore = 75;
          activityBonus = min (length (todayRecords data) * 2) 25
      in min (baseScore + activityBonus) 100)"

subsection \<open>Anomalies\<close>

text \<open>
  Numbers are real numbers or NaN (\<open>None\<close>); the source computes with doubles. The hours
  are integers below 24 and an array has fewer than \<open>2 ^ 32\<close> elements, so the sum is
  exact. For \<open>n\<close> sign-ins the exact mean either hits a bound \<open>hour + 3\<close> or \<open>hour - 3\<close>
  or a half-integer, and then the division is exact, or it is at least \<open>1 / (2 * n)\<close>
  away from all of them, far more than one division and one subtraction round. So the
  threshold test and \<^verbatim>\<open>Math.round\<close> give the same results over the doubles and over
  the reals.
\<close>

type_synonym number = "real option"

text \<open>\<^verbatim>\<open>signInHours.reduce((a, b) => a + b, 0)\<close>.\<close>

definition add_hour :: "number \<Rightarrow> nat option \<Rightarrow> number" where
  "add_hour a b = (case (a, b) of (Some x, Some y) \<Rightarrow> Some (x + real y) | _ \<Rightarrow> None)"

definition sum_hours :: "nat option list \<Rightarrow> number" where
  "sum_hours hs = fold (\<lambda>b a. add_hour a b) hs (Some 0)"

definition signInHours :: "tzone \<Rightarrow> att_record list \<Rightarrow> nat option list" where
  "signInHours tza recs =
     map (\<lambda>r. getHours tza (timestamp r)) (filter (\<lambda>r. action r = ''sign-in'') recs)"

text \<open>
  The sum divided by the length of the list. The length is 0 only for the empty list,
  whose sum is 0, and \<open>0 / 0\<close> is NaN.
\<close>

definition avgSignInHour :: "tzone \<Rightarrow> att_record list \<Rightarrow> number" where
  "avgSignInHour tza recs =
     (case sum_hours (signInHours tza recs) of
        None \<Rightarrow> None
      | Some s \<Rightarrow>
          if length (signInHours tza recs) = 0 then None
          else Some (s / real (length (signInHours tza recs))))"

text \<open>\<^verbatim>\<open>Math.abs(hour - avg) > limit\<close>, false as soon as one side is NaN.\<close>

definition deviates :: "nat option \<Rightarrow> number \<Rightarrow> real \<Rightarrow> bool" where
  "deviates hour avg limit =
     (case (hour, avg) of (Some h, Some m) \<Rightarrow> \<bar>real h - m\<bar> > limit | _ \<Rightarrow> False)"

text \<open>
  An anomaly carries its type, the record, and the two numbers its message prints: the
  hour and \<^verbatim>\<open>Math.round(avgSignInHour)\<close>.
\<close>

record anomaly =
  anomaly_type :: string
  anomaly_record :: att_record
  message_hour :: "nat option"
  message_average :: "int option"

definition Math_round :: "number \<Rightarrow> int option" where
  "Math_round x = (case x of None \<Rightarrow> None | Some v \<Rightarrow> Some \<lfloor>v + 1 / 2\<rfloor>)"

definition detectAnomalies :: "tzone \<Rightarrow> att_record list \<Rightarrow> anomaly list" where
  "detectAnomalies tza recs =
     (let avg = avgSignInHour tza recs
      in concat (map (\<lambda>record.
           if action record = ''sign-in'' then
             (let hour = getHours tza (timestamp record)
              in if deviates hour avg 3
                 then [\<lparr>anomaly_type = ''unusual_time'', anomaly_record = record,
                        message_hour = hour, message_average = Math_round avg\<rparr>]
                 else [])
           else []) recs))"

subsection \<open>Sample data\<close>

text \<open>A host in UTC, and records, a store and a user for concrete runs.\<close>

definition utc :: tzone where
  "utc t = 0"

definition sample_record :: "int \<Rightarrow> string \<Rightarrow> string \<Rightarrow> jsdate \<Rightarrow> att_record" where
  "sample_record i name act ts =
     \<lparr>rec_id = i, userId = 3, username = name, action = act, timestamp = ts,
      location = ''Office''\<rparr>"

definition at_hour :: "int \<Rightarrow> int \<Rightarrow> att_record" where
  "at_hour i h = sample_record i ''employee1'' ''sign-in'' (Some (h * msPerHour))"

definition sample_db :: "att_record list \<Rightarrow> db" where
  "sample_db xs = \<lparr>attendance_json = Some xs, logs_json = Some [], writable = True\<rparr>"

definition sample_user :: jwt_user where
  "sample_user = \<lparr>user_id = 3, user_name = ''employee1'', role = ''employee''\<rparr>"

section \<open>Properties\<close>

subsection \<open>Objects as property lists\<close>

lemma map_of_put_str: "map_of (put_str k v b) = (map_of b)(k \<mapsto> v)"
  by (induction b) (auto simp: fun_eq_iff)

lemma map_of_put_hour: "map_of (put_hour k v b) = (map_of b)(k \<mapsto> v)"
  by (induction b) (auto simp: fun_eq_iff)

lemma key_before_trans: "key_before a b \<Longrightarrow> key_before b c \<Longrightarrow> key_before a c"
  by (cases a; cases b; cases c) simp_all

lemma key_before_total: "a \<noteq> b \<Longrightarrow> \<not> key_before a b \<Longrightarrow> key_before b a"
  by (cases a; cases b) simp_all

lemma keys_put_hour: "fst ` set (put_hour k v b) = insert k (fst ` set b)"
proof (induction b)
  case Nil
  then show ?case by simp
next
  case (Cons a b)
  obtain k' v' where a: "a = (k', v')" by (cases a)
  show ?case using Cons.IH by (simp add: a insert_commute)
qed

lemma sorted_put_hour:
  "sorted_wrt key_before (map fst b) \<Longrightarrow> sorted_wrt key_before (map fst (put_hour k v b))"
proof (induction b)
  case Nil
  then show ?case by simp
next
  case (Cons a b)
  obtain k' v' where a: "a = (k', v')" by (cases a)
  from Cons.prems have tl: "sorted_wrt key_before (map fst b)"
    and hd: "\<forall>x \<in> set b. key_before k' (fst x)"
    by (simp_all add: a)
  show ?case
  proof (cases "k = k'")
    case True
    then show ?thesis using Cons.prems by (simp add: a)
  next
    case ne: False
    show ?thesis
    proof (cases "key_before k k'")
      case True
      then have "\<forall>x \<in> set b. key_before k (fst x)"
        using hd key_before_trans by blast
      then show ?thesis using ne True tl hd by (simp add: a)
    next
      case False
      then have "key_before k' k" using ne key_before_total by blast
      moreover have "\<forall>x \<in> fst ` set (put_hour k v b). x = k \<or> x \<in> fst ` set b"
        by (simp add: keys_put_hour)
      ultimately have "\<forall>x \<in> set (put_hour k v b). key_before k' (fst x)"
        using hd by fastforce
      then show ?thesis using ne False Cons.IH [OF tl] by (simp add: a)
    qed
  qed
qed

lemma sorted_count_hour:
  "sorted_wrt key_before (map fst b) \<Longrightarrow> sorted_wrt key_before (map fst (count_hour tza r b))"
  by (simp add: count_hour_def Let_def sorted_put_hour)



lemma bucket_fold_count_hour:
  "map_of (fold (count_hour tza) E b) k =
     (let n = length (filter (\<lambda>r. hour_key_of (getHours tza (timestamp r)) = k) E)
      in if n = 0 then map_of b k
         else Some ((case map_of b k of None \<Rightarrow> 0 | Some c \<Rightarrow> c) + n))"
proof (induction E arbitrary: b)
  case Nil
  then show ?case by simp
next
  case (Cons r E)
  have step: "map_of (count_hour tza r b) k =
      (if hour_key_of (getHours tza (timestamp r)) = k
       then Some ((case map_of b k of None \<Rightarrow> 0 | Some c \<Rightarrow> c) + 1) else map_of b k)"
    by (simp add: count_hour_def Let_def map_of_put_hour)
  have "map_of (fold (count_hour tza) (r # E) b) k =
        map_of (fold (count_hour tza) E (count_hour tza r b)) k"
    by simp
  also have "\<dots> =
     (let n = length (filter (\<lambda>r. hour_key_of (getHours tza (timestamp r)) = k) E)
      in if n = 0 then map_of (count_hour tza r b) k
         else Some ((case map_of (count_hour tza r b) k of None \<Rightarrow> 0 | Some c \<Rightarrow> c) + n))"
    by (rule Cons.IH)
  also have "\<dots> =
     (let n = length (filter (\<lambda>r. hour_key_of (getHours tza (timestamp r)) = k) (r # E))
      in if n = 0 then map_of b k
         else Some ((case map_of b k of None \<Rightarrow> 0 | Some c \<Rightarrow> c) + n))"
    by (simp add: step Let_def)
  finally show ?case .
qed

lemma bucket_getHourlyBreakdown:
  "map_of (getHourlyBreakdown tza E) k =
     (let n = length (filter (\<lambda>r. hour_key_of (getHours tza (timestamp r)) = k) E)
      in if n = 0 then None else Some n)"
  by (simp add: getHourlyBreakdown_def bucket_fold_count_hour Let_def)

lemma filter_put_hour_NaN:
  "filter (\<lambda>e. fst e \<noteq> NaN_key) (put_hour NaN_key v b) = filter (\<lambda>e. fst e \<noteq> NaN_key) b"
  by (induction b) auto

lemma filter_put_hour_Hour:
  "sorted_wrt key_before (map fst b) \<Longrightarrow>
   filter (\<lambda>e. fst e \<noteq> NaN_key) (put_hour (Hour h) v b) =
   put_hour (Hour h) v (filter (\<lambda>e. fst e \<noteq> NaN_key) b)"
proof (induction b)
  case Nil
  then show ?case by simp
next
  case (Cons a b)
  obtain k' v' where a: "a = (k', v')" by (cases a)
  from Cons.prems have tl: "sorted_wrt key_before (map fst b)"
    and hd: "\<forall>x \<in> set b. key_before k' (fst x)"
    by (simp_all add: a)
  show ?case
  proof (cases k')
    case (Hour h')
    then show ?thesis using Cons.IH [OF tl] by (simp add: a)
  next
    case NaN_key
    then have "b = []" using hd by (cases b) auto
    then show ?thesis using NaN_key by (simp add: a)
  qed
qed

lemma map_of_filter_keys:
  "k \<noteq> k0 \<Longrightarrow> map_of (filter (\<lambda>e. fst e \<noteq> k0) b) k = map_of b k"
  by (induction b) auto

lemma hourly_without_NaN_fold:
  "sorted_wrt key_before (map fst b) \<Longrightarrow>
   filter (\<lambda>e. fst e \<noteq> NaN_key) (fold (count_hour tza) E b) =
   fold (count_hour tza) (filter valid_timestamp E) (filter (\<lambda>e. fst e \<noteq> NaN_key) b)"
proof (induction E arbitrary: b)
  case Nil
  then show ?case by simp
next
  case (Cons r E)
  have s: "sorted_wrt key_before (map fst (count_hour tza r b))"
    using Cons.prems by (rule sorted_count_hour)
  show ?case
  proof (cases "timestamp r")
    case None
    then have "filter (\<lambda>e. fst e \<noteq> NaN_key) (count_hour tza r b) =
               filter (\<lambda>e. fst e \<noteq> NaN_key) b"
      by (simp add: count_hour_def getHours_def hour_key_of_def filter_put_hour_NaN Let_def)
    then show ?thesis using Cons.IH [OF s] None by (simp add: valid_timestamp_def)
  next
    case (Some t)
    then have "filter (\<lambda>e. fst e \<noteq> NaN_key) (count_hour tza r b) =
               count_hour tza r (filter (\<lambda>e. fst e \<noteq> NaN_key) b)"
      using Cons.prems
      by (simp add: count_hour_def getHours_def hour_key_of_def filter_put_hour_Hour
          map_of_filter_keys Let_def)
    then show ?thesis using Cons.IH [OF s] Some by (simp add: valid_timestamp_def)
  qed
qed

lemma hourly_without_NaN:
  "filter (\<lambda>e. fst e \<noteq> NaN_key) (getHourlyBreakdown tza E) =
   getHourlyBreakdown tza (filter valid_timestamp E)"
  by (simp add: getHourlyBreakdown_def hourly_without_NaN_fold)

lemma hour_key_NaN_iff:
  "hour_key_of (getHours tza (timestamp r)) = NaN_key \<longleftrightarrow> \<not> valid_timestamp r"
  by (simp add: hour_key_of_def getHours_def valid_timestamp_def split: option.splits)

lemma hourly_NaN_bucket:
  "map_of (getHourlyBreakdown tza E) NaN_key =
     (if \<forall>r \<in> set E. valid_timestamp r then None
      else Some (length (filter (\<lambda>r. \<not> valid_timestamp r) E)))"
  by (auto simp: bucket_getHourlyBreakdown hour_key_NaN_iff Let_def filter_empty_conv)

lemma filter_put_str_same:
  "filter (\<lambda>e. fst e \<noteq> k0) (put_str k0 v b) = filter (\<lambda>e. fst e \<noteq> k0) b"
  by (induction b) auto

lemma filter_put_str_other:
  "k \<noteq> k0 \<Longrightarrow> filter (\<lambda>e. fst e \<noteq> k0) (put_str k v b) =
                put_str k v (filter (\<lambda>e. fst e \<noteq> k0) b)"
  by (induction b) auto

lemma date_Invalid_iff:
  "toDateString tza (timestamp r) = Invalid_Date \<longleftrightarrow> \<not> valid_timestamp r"
  by (simp add: toDateString_def valid_timestamp_def split: option.splits)

lemma daily_without_Invalid_fold:
  "filter (\<lambda>e. fst e \<noteq> Invalid_Date) (fold (count_day tza) E b) =
   fold (count_day tza) (filter valid_timestamp E) (filter (\<lambda>e. fst e \<noteq> Invalid_Date) b)"
proof (induction E arbitrary: b)
  case Nil
  then show ?case by simp
next
  case (Cons r E)
  show ?case
  proof (cases "valid_timestamp r")
    case True
    then have ne: "toDateString tza (timestamp r) \<noteq> Invalid_Date"
      by (simp add: date_Invalid_iff)
    have "filter (\<lambda>e. fst e \<noteq> Invalid_Date) (count_day tza r b) =
          count_day tza r (filter (\<lambda>e. fst e \<noteq> Invalid_Date) b)"
      using ne by (simp add: count_day_def Let_def filter_put_str_other map_of_filter_keys)
    then show ?thesis using True by (simp add: Cons.IH)
  next
    case False
    then have "toDateString tza (timestamp r) = Invalid_Date"
      by (simp add: date_Invalid_iff)
    then have "filter (\<lambda>e. fst e \<noteq> Invalid_Date) (count_day tza r b) =
               filter (\<lambda>e. fst e \<noteq> Invalid_Date) b"
      by (simp add: count_day_def Let_def filter_put_str_same)
    then show ?thesis using False by (simp add: Cons.IH)
  qed
qed

lemma daily_without_Invalid:
  "filter (\<lambda>e. fst e \<noteq> Invalid_Date) (getDailyBreakdown tza E) =
   getDailyBreakdown tza (filter valid_timestamp E)"
  by (simp add: getDailyBreakdown_def daily_without_Invalid_fold)

lemma bucket_fold_count_day:
  "map_of (fold (count_day tza) E b) k =
     fold (\<lambda>r c. Some (bump r c)) (filter (\<lambda>r. toDateString tza (timestamp r) = k) E)
       (map_of b k)"
  by (induction E arbitrary: b) (simp_all add: count_day_def Let_def map_of_put_str)

lemma tally_Some:
  "fold (\<lambda>r c. Some (bump r c)) evs (Some c0) =
     Some \<lparr>signIns = signIns c0 + length (filter (\<lambda>r. action r = ''sign-in'') evs),
           signOuts = signOuts c0 + length (filter (\<lambda>r. action r \<noteq> ''sign-in'') evs)\<rparr>"
  by (induction evs arbitrary: c0) (simp_all add: bump_def)

lemma tally_None:
  "fold (\<lambda>r c. Some (bump r c)) evs None =
     (if evs = [] then None
      else Some \<lparr>signIns = length (filter (\<lambda>r. action r = ''sign-in'') evs),
                 signOuts = length (filter (\<lambda>r. action r \<noteq> ''sign-in'') evs)\<rparr>)"
proof (cases evs)
  case Nil
  then show ?thesis by simp
next
  case (Cons a list)
  have "fold (\<lambda>r c. Some (bump r c)) (a # list) None =
        fold (\<lambda>r c. Some (bump r c)) list (Some (bump a None))"
    by simp
  also have "\<dots> = Some \<lparr>signIns = signIns (bump a None) + length (filter (\<lambda>r. action r = ''sign-in'') list),
           signOuts = signOuts (bump a None) + length (filter (\<lambda>r. action r \<noteq> ''sign-in'') list)\<rparr>"
    by (rule tally_Some)
  also have "\<dots> = Some \<lparr>signIns = length (filter (\<lambda>r. action r = ''sign-in'') (a # list)),
                 signOuts = length (filter (\<lambda>r. action r \<noteq> ''sign-in'') (a # list))\<rparr>"
    by (simp add: bump_def)
  finally show ?thesis using Cons by simp
qed

lemma bucket_getDailyBreakdown:
  "map_of (getDailyBreakdown tza E) k =
     (let evs = filter (\<lambda>r. toDateString tza (timestamp r) = k) E
      in if evs = [] then None
         else Some \<lparr>signIns = length (filter (\<lambda>r. action r = ''sign-in'') evs),
                    signOuts = length (filter (\<lambda>r. action r \<noteq> ''sign-in'') evs)\<rparr>)"
  by (simp add: getDailyBreakdown_def bucket_fold_count_day tally_None Let_def)

lemma distinct_put_str:
  "distinct (map fst b) \<Longrightarrow> distinct (map fst (put_str k v b))"
proof (induction b)
  case Nil
  then show ?case by simp
next
  case (Cons a b)
  obtain k' v' where a: "a = (k', v')" by (cases a)
  have keys: "fst ` set (put_str k v b) = insert k (fst ` set b)" for b :: "('a \<times> 'b) list"
  proof (induction b)
    case Nil
    then show ?case by simp
  next
    case (Cons x b)
    obtain k2 v2 where x: "x = (k2, v2)" by (cases x)
    show ?case using Cons.IH by (simp add: x insert_commute)
  qed
  show ?case using Cons by (auto simp: a keys)
qed

lemma distinct_getDailyBreakdown: "distinct (map fst (getDailyBreakdown tza E))"
proof -
  have "distinct (map fst b) \<Longrightarrow> distinct (map fst (fold (count_day tza) E b))" for b
    by (induction E arbitrary: b) (simp_all add: count_day_def Let_def distinct_put_str)
  then show ?thesis by (simp add: getDailyBreakdown_def)
qed

lemma sum_put_str:
  fixes f :: "'v \<Rightarrow> nat"
  shows "(\<Sum>(k, c) \<leftarrow> put_str k v b. f c) + (case map_of b k of None \<Rightarrow> 0 | Some c \<Rightarrow> f c) =
         (\<Sum>(k, c) \<leftarrow> b. f c) + f v"
proof (induction b)
  case Nil
  then show ?case by simp
next
  case (Cons a b)
  obtain k' v' where a: "a = (k', v')" by (cases a)
  show ?case using Cons.IH by (simp add: a)
qed

lemma signIns_bump:
  "signIns (bump r m) =
     (case m of None \<Rightarrow> 0 | Some c \<Rightarrow> signIns c) + (if action r = ''sign-in'' then 1 else 0)"
  by (simp add: bump_def split: option.splits)

lemma signOuts_bump:
  "signOuts (bump r m) =
     (case m of None \<Rightarrow> 0 | Some c \<Rightarrow> signOuts c) + (if action r = ''sign-in'' then 0 else 1)"
  by (simp add: bump_def split: option.splits)

lemma signIns_count_day:
  "(\<Sum>(k, c) \<leftarrow> count_day tza r b. signIns c) =
   (\<Sum>(k, c) \<leftarrow> b. signIns c) + (if action r = ''sign-in'' then 1 else 0)"
  using sum_put_str [where k = "toDateString tza (timestamp r)"
      and v = "bump r (map_of b (toDateString tza (timestamp r)))" and b = b and f = signIns]
  by (simp add: count_day_def Let_def signIns_bump)

lemma signOuts_count_day:
  "(\<Sum>(k, c) \<leftarrow> count_day tza r b. signOuts c) =
   (\<Sum>(k, c) \<leftarrow> b. signOuts c) + (if action r = ''sign-in'' then 0 else 1)"
  using sum_put_str [where k = "toDateString tza (timestamp r)"
      and v = "bump r (map_of b (toDateString tza (timestamp r)))" and b = b and f = signOuts]
  by (simp add: count_day_def Let_def signOuts_bump)

lemma signIns_fold_count_day:
  "(\<Sum>(k, c) \<leftarrow> fold (count_day tza) E b. signIns c) =
   (\<Sum>(k, c) \<leftarrow> b. signIns c) + length (filter (\<lambda>r. action r = ''sign-in'') E)"
  by (induction E arbitrary: b) (simp_all add: signIns_count_day)

lemma signOuts_fold_count_day:
  "(\<Sum>(k, c) \<leftarrow> fold (count_day tza) E b. signOuts c) =
   (\<Sum>(k, c) \<leftarrow> b. signOuts c) + length (filter (\<lambda>r. action r \<noteq> ''sign-in'') E)"
  by (induction E arbitrary: b) (simp_all add: signOuts_count_day)

lemma sum_counters_split:
  "(\<Sum>(k, c) \<leftarrow> b. signIns c + signOuts c) =
   (\<Sum>(k, c) \<leftarrow> b. signIns c) + (\<Sum>(k, c) \<leftarrow> b. signOuts c)"
  by (induction b) auto

subsection \<open>Stable sorting\<close>










lemma calculatePeakHours_at_most_5: "length (calculatePeakHours tza E) \<le> 5"
  by (simp add: calculatePeakHours_def peakHours_def)

subsection \<open>Sign-in hours and their mean\<close>

lemma add_hour_simps:
  "add_hour a None = None" "add_hour None b = None"
  "add_hour (Some x) (Some y) = Some (x + real y)"
  by (simp_all add: add_hour_def split: option.splits)

lemma sum_hours_fold_Some:
  "fold (\<lambda>b a. add_hour a b)
     (map Some hs) (Some a) = Some (a + real (sum_list hs))"
  by (induction hs arbitrary: a) (simp_all add: add_hour_simps add.assoc)

lemma sum_hours_valid: "sum_hours (map Some hs) = Some (real (sum_list hs))"
  by (simp add: sum_hours_def sum_hours_fold_Some)

lemma sum_hours_fold_None:
  "fold (\<lambda>b a. add_hour a b) hs None = None"
  by (induction hs) (simp_all add: add_hour_simps)

lemma sum_hours_fold_NaN:
  "None \<in> set hs \<Longrightarrow>
   fold (\<lambda>b a. add_hour a b) hs acc = None"
proof (induction hs arbitrary: acc)
  case Nil
  then show ?case by simp
next
  case (Cons h hs)
  show ?case
  proof (cases h)
    case None
    then show ?thesis by (cases acc) (simp_all add: add_hour_simps sum_hours_fold_None)
  next
    case (Some n)
    then have "None \<in> set hs" using Cons.prems by auto
    then show ?thesis using Cons.IH by simp
  qed
qed

lemma sum_hours_NaN: "None \<in> set hs \<Longrightarrow> sum_hours hs = None"
  by (simp add: sum_hours_def sum_hours_fold_NaN)

lemma no_signin_hours:
  "\<forall>r \<in> set E. action r \<noteq> ''sign-in'' \<Longrightarrow> signInHours tza E = []"
  by (simp add: signInHours_def)

lemma signInHours_valid:
  assumes "\<forall>r \<in> set E. action r = ''sign-in'' \<longrightarrow> timestamp r \<noteq> None"
  shows "signInHours tza E =
     map Some (map (\<lambda>r. the (getHours tza (timestamp r))) (filter (\<lambda>r. action r = ''sign-in'') E))"
  using assms by (auto simp: signInHours_def getHours_def)

lemma avgSignInHour_valid:
  assumes "\<forall>r \<in> set E. action r = ''sign-in'' \<longrightarrow> timestamp r \<noteq> None"
    and "\<exists>r \<in> set E. action r = ''sign-in''"
  shows "avgSignInHour tza E =
     Some (real (\<Sum>r \<leftarrow> filter (\<lambda>r. action r = ''sign-in'') E. the (getHours tza (timestamp r)))
           / real (length (filter (\<lambda>r. action r = ''sign-in'') E)))"
proof -
  have "filter (\<lambda>r. action r = ''sign-in'') E \<noteq> []"
    using assms(2) by (simp add: filter_empty_conv)
  moreover have "sum_hours (signInHours tza E) =
      Some (real (\<Sum>r \<leftarrow> filter (\<lambda>r. action r = ''sign-in'') E. the (getHours tza (timestamp r))))"
    by (simp only: signInHours_valid [OF assms(1)] sum_hours_valid)
  moreover have "length (signInHours tza E) = length (filter (\<lambda>r. action r = ''sign-in'') E)"
    by (simp add: signInHours_def)
  ultimately show ?thesis
    by (simp add: avgSignInHour_def)
qed

lemma avgSignInHour_NaN:
  assumes "\<exists>r \<in> set E. action r = ''sign-in'' \<and> timestamp r = None"
  shows "avgSignInHour tza E = None"
proof -
  have "None \<in> set (signInHours tza E)"
    using assms by (force simp: signInHours_def getHours_def)
  then show ?thesis by (simp add: avgSignInHour_def sum_hours_NaN)
qed

lemma detectAnomalies_records:
  "map anomaly_record (detectAnomalies tza E) =
     filter (\<lambda>r. action r = ''sign-in'' \<and>
                 deviates (getHours tza (timestamp r)) (avgSignInHour tza E) 3) E"
proof -
  have "map anomaly_record (concat (map (\<lambda>record.
           if action record = ''sign-in'' then
             (let hour = getHours tza (timestamp record)
              in if deviates hour avg 3
                 then [\<lparr>anomaly_type = ''unusual_time'', anomaly_record = record,
                        message_hour = hour, message_average = Math_round avg\<rparr>]
                 else [])
           else []) E)) =
     filter (\<lambda>r. action r = ''sign-in'' \<and> deviates (getHours tza (timestamp r)) avg 3) E"
    for avg
    by (induction E) (simp_all add: Let_def)
  then show ?thesis by (simp add: detectAnomalies_def Let_def)
qed

lemma deviates_iff:
  "deviates hour avg limit \<longleftrightarrow> (\<exists>h m. hour = Some h \<and> avg = Some m \<and> limit < \<bar>real h - m\<bar>)"
  by (simp add: deviates_def split: option.splits)

subsection \<open>Filters and unparseable timestamps\<close>

lemma date_ge_Some: "date_ge a (Some y) = (\<exists>t. a = Some t \<and> t \<ge> y)"
  by (cases a) (simp_all add: date_ge_def)

lemma weekly_filter:
  "filterByWindow tza ''weekly'' now E =
     Some (filter (\<lambda>r. \<exists>t. timestamp r = Some t \<and> t \<ge> now - 7 * msPerDay) E)"
  by (simp add: filterByWindow_def date_ge_Some msPerDay_def)

lemma date_le_Some: "date_le a (Some y) = (\<exists>t. a = Some t \<and> t \<le> y)"
  by (cases a) (simp_all add: date_le_def)

lemma filterByWindow_valid:
  "filterByWindow tza type now E = filterByWindow tza type now (filter valid_timestamp E)"
proof -
  have "date_ge (timestamp r) (Some y) \<Longrightarrow> valid_timestamp r" for r y
    by (auto simp: date_ge_Some valid_timestamp_def)
  moreover have "toDateString tza (timestamp r) = toDateString tza (Some now) \<Longrightarrow> valid_timestamp r"
    for r
    by (cases "timestamp r") (simp_all add: toDateString_def valid_timestamp_def)
  ultimately show ?thesis
    by (auto simp: filterByWindow_def Let_def intro!: filter_cong)
qed

lemma filterRecordsByDateRange_valid:
  "filterRecordsByDateRange E (Some rng) =
   filterRecordsByDateRange (filter valid_timestamp E) (Some rng)"
proof -
  obtain s e where rng: "rng = (s, e)" by (cases rng)
  have "date_ge (timestamp r) s \<Longrightarrow> valid_timestamp r" for r
    by (cases "timestamp r") (simp_all add: date_ge_def valid_timestamp_def)
  then show ?thesis
    by (auto simp: filterRecordsByDateRange_def rng intro!: filter_cong)
qed

lemma getUserBreakdown_timestamps:
  "getUserBreakdown (map (timestamp_update f) E) = getUserBreakdown E"
proof -
  have step: "count_user (timestamp_update f r) b = count_user r b" for r b
    by (simp add: count_user_def bump_def)
  have "fold count_user (map (timestamp_update f) E) b = fold count_user E b" for b
    by (induction E arbitrary: b) (simp_all add: step)
  then show ?thesis by (simp add: getUserBreakdown_def)
qed

lemma daily_Invalid_bucket:
  "map_of (getDailyBreakdown tza E) Invalid_Date =
     (if \<forall>r \<in> set E. valid_timestamp r then None
      else Some \<lparr>signIns = length (filter (\<lambda>r. \<not> valid_timestamp r \<and> action r = ''sign-in'') E),
                 signOuts = length (filter (\<lambda>r. \<not> valid_timestamp r \<and> action r \<noteq> ''sign-in'') E)\<rparr>)"
proof -
  have "filter (\<lambda>r. toDateString tza (timestamp r) = Invalid_Date) E =
        filter (\<lambda>r. \<not> valid_timestamp r) E"
    by (simp add: date_Invalid_iff)
  moreover have "(filter (\<lambda>r. \<not> valid_timestamp r) E = []) = (\<forall>r \<in> set E. valid_timestamp r)"
    by (simp add: filter_empty_conv)
  ultimately show ?thesis
    by (simp add: bucket_getDailyBreakdown Let_def conj_commute)
qed

section \<open>Claims\<close>

subsection \<open>Recording an event\<close>

text \<open>
  C1: an action outside sign-in and sign-out is to be refused with nothing recorded.
  The route checks nothing: run on an empty ledger with the action \<^verbatim>\<open>lunch\<close>, it
  stores the record, logs the activity and answers 201 with the record, a record that
  the validation of the other write path rejects.
\<close>

theorem post_attendance_stores_unknown_action:
  "post_attendance (sample_db []) sample_user ''lunch'' 1000 1001 (1002, 1003) =
     (\<lparr>attendance_json =
         Some [\<lparr>rec_id = 1000, userId = 3, username = ''employee1'', action = ''lunch'',
                timestamp = Some 1001, location = ''Office''\<rparr>],
       logs_json =
         Some [\<lparr>log_id = 1002, log_type = ''attendance'', description = ''employee1 lunch'',
                log_userId = Some 3, log_timestamp = Some 1003, ipAddress = ''127.0.0.1''\<rparr>],
       writable = True\<rparr>,
      Inr \<lparr>rec_id = 1000, userId = 3, username = ''employee1'', action = ''lunch'',
           timestamp = Some 1001, location = ''Office''\<rparr>)
   \<and> validateData_action ''lunch'' = [''action must be one of: sign-in, sign-out'']"
  by (simp add: post_attendance_def sample_db_def sample_user_def readData_attendance_def
      writeData_attendance_def logActivity_def readData_logs_def writeData_logs_def Let_def
      validateData_action_def)

text \<open>
  C4, as stated, fails: the fetched ledger need not contain the appended event exactly
  once. The id and the timestamp are clock readings in milliseconds; two sign-ins of the
  same user posted at the same reading give two equal records, and the ledger fetched
  after the second post holds that event twice.
\<close>

theorem repeated_post_stores_event_twice:
  "get_attendance
     (fst (post_attendance (sample_db []) sample_user ''sign-in'' 1000 1000 (1000, 1000))) =
     Inr [sample_record 1000 ''employee1'' ''sign-in'' (Some 1000)]
   \<and> get_attendance
       (fst (post_attendance
          (fst (post_attendance (sample_db []) sample_user ''sign-in'' 1000 1000 (1000, 1000)))
          sample_user ''sign-in'' 1000 1000 (1000, 1000))) =
     Inr [sample_record 1000 ''employee1'' ''sign-in'' (Some 1000),
          sample_record 1000 ''employee1'' ''sign-in'' (Some 1000)]
   \<and> snd (post_attendance
          (fst (post_attendance (sample_db []) sample_user ''sign-in'' 1000 1000 (1000, 1000)))
          sample_user ''sign-in'' 1000 1000 (1000, 1000)) =
     Inr (sample_record 1000 ''employee1'' ''sign-in'' (Some 1000))
   \<and> count_list
       [sample_record 1000 ''employee1'' ''sign-in'' (Some 1000),
        sample_record 1000 ''employee1'' ''sign-in'' (Some 1000)]
       (sample_record 1000 ''employee1'' ''sign-in'' (Some 1000)) = 2"
  by (simp add: post_attendance_def get_attendance_def sample_db_def sample_user_def
      sample_record_def readData_attendance_def writeData_attendance_def logActivity_def
      readData_logs_def writeData_logs_def Let_def)

text \<open>
  C4, amended: on a readable and writable store, posting an event and then fetching the
  ledger yields the prior ledger followed by the new event: the event is in the last
  position and every earlier event is still there before it, in its old order. The
  fetched ledger contains the event exactly once if and only if the prior ledger held
  no equal record, which is the case whenever no stored record has the new id.
\<close>

theorem append_then_fetch:
  assumes "attendance_json d = Some xs" and "writable d"
  shows "\<exists>d' e. post_attendance d user act now_id now_ts lc = (d', Inr e)
           \<and> e = \<lparr>rec_id = now_id, userId = user_id user, username = user_name user,
                   action = act, timestamp = Some now_ts, location = ''Office''\<rparr>
           \<and> get_attendance d = Inr xs
           \<and> get_attendance d' = Inr (xs @ [e])
           \<and> last (xs @ [e]) = e
           \<and> take (length xs) (xs @ [e]) = xs
           \<and> (count_list (xs @ [e]) e = 1 \<longleftrightarrow> e \<notin> set xs)
           \<and> ((\<forall>x \<in> set xs. rec_id x \<noteq> now_id) \<longrightarrow> count_list (xs @ [e]) e = 1)"
proof -
  let ?e = "\<lparr>rec_id = now_id, userId = user_id user, username = user_name user,
             action = act, timestamp = Some now_ts, location = ''Office''\<rparr>"
  let ?d1 = "d\<lparr>attendance_json := Some (xs @ [?e])\<rparr>"
  let ?d' = "logActivity ?d1 ''attendance'' (user_name user @ '' '' @ act)
               (Some (user_id user)) lc"
  have post: "post_attendance d user act now_id now_ts lc = (?d', Inr ?e)"
    using assms
    by (simp add: post_attendance_def readData_attendance_def writeData_attendance_def Let_def)
  have "attendance_json ?d' = Some (xs @ [?e])"
    by (simp add: logActivity_def readData_logs_def writeData_logs_def
        split: option.splits)
  then have fetch: "get_attendance ?d' = Inr (xs @ [?e])"
    by (simp add: get_attendance_def readData_attendance_def)
  have before: "get_attendance d = Inr xs"
    using assms by (simp add: get_attendance_def readData_attendance_def)
  have once: "count_list (xs @ [?e]) ?e = 1" if "\<forall>x \<in> set xs. rec_id x \<noteq> now_id"
  proof -
    have "?e \<notin> set xs" using that by force
    then show ?thesis by simp
  qed
  have iff: "count_list (xs @ [?e]) ?e = 1 \<longleftrightarrow> ?e \<notin> set xs"
    by (simp add: count_list_0_iff)
  show ?thesis using post fetch before once iff by simp
qed

theorem append_then_fetch_witness:
  "attendance_json (sample_db [at_hour 1 9]) = Some [at_hour 1 9]
   \<and> writable (sample_db [at_hour 1 9])
   \<and> rec_id (at_hour 1 9) \<noteq> 1000
   \<and> get_attendance
       (fst (post_attendance (sample_db [at_hour 1 9]) sample_user ''sign-out'' 1000 1001
              (1002, 1003))) =
     Inr [at_hour 1 9, sample_record 1000 ''employee1'' ''sign-out'' (Some 1001)]
   \<and> count_list [at_hour 1 9, sample_record 1000 ''employee1'' ''sign-out'' (Some 1001)]
       (sample_record 1000 ''employee1'' ''sign-out'' (Some 1001)) = 1"
  using append_then_fetch [of "sample_db [at_hour 1 9]" "[at_hour 1 9]" sample_user
      "''sign-out''" 1000 1001 "(1002, 1003)"]
  by (auto simp: sample_db_def sample_user_def sample_record_def at_hour_def)

subsection \<open>Breakdowns and unparseable timestamps\<close>

text \<open>
  C2, as stated, fails: a record whose timestamp does not parse is not left out of the
  hourly and daily breakdowns. With one sign-in at 9:00 and one record with an
  unparseable timestamp, each breakdown has a second bucket, named NaN and Invalid Date,
  that the breakdown of the valid record alone does not have.
\<close>

theorem hourly_breakdown_counts_unparseable:
  "getHourlyBreakdown utc [at_hour 1 9, sample_record 2 ''employee1'' ''sign-in'' None] =
     [(Hour 9, 1), (NaN_key, 1)]
   \<and> getHourlyBreakdown utc
       (filter valid_timestamp [at_hour 1 9, sample_record 2 ''employee1'' ''sign-in'' None]) =
     [(Hour 9, 1)]
   \<and> getDailyBreakdown utc [at_hour 1 9, sample_record 2 ''employee1'' ''sign-in'' None] =
     [(Date_String 0, \<lparr>signIns = 1, signOuts = 0\<rparr>),
      (Invalid_Date, \<lparr>signIns = 1, signOuts = 0\<rparr>)]
   \<and> getDailyBreakdown utc
       (filter valid_timestamp [at_hour 1 9, sample_record 2 ''employee1'' ''sign-in'' None]) =
     [(Date_String 0, \<lparr>signIns = 1, signOuts = 0\<rparr>)]"
  by (simp add: getHourlyBreakdown_def count_hour_def hour_key_of_def getHours_def
      getDailyBreakdown_def count_day_def bump_def toDateString_def msPerDay_def
      LocalTime_def utc_def msPerHour_def at_hour_def sample_record_def valid_timestamp_def
      Let_def)

text \<open>
  C2, amended: no aggregation fails on an unparseable timestamp, and none reports an
  exclusion. The window filters and the date-range filter leave such a record out. The
  hourly and the daily breakdown do not: they count it in one more bucket (NaN, Invalid
  Date), and without that bucket they are the breakdowns of the valid records alone. The
  user breakdown does not read timestamps and counts the record like any other.
\<close>

theorem unparseable_timestamps_in_aggregation:
  "filter (\<lambda>e. fst e \<noteq> NaN_key) (getHourlyBreakdown tza E) =
     getHourlyBreakdown tza (filter valid_timestamp E)
   \<and> map_of (getHourlyBreakdown tza E) NaN_key =
       (if \<forall>r \<in> set E. valid_timestamp r then None
        else Some (length (filter (\<lambda>r. \<not> valid_timestamp r) E)))
   \<and> filter (\<lambda>e. fst e \<noteq> Invalid_Date) (getDailyBreakdown tza E) =
       getDailyBreakdown tza (filter valid_timestamp E)
   \<and> map_of (getDailyBreakdown tza E) Invalid_Date =
       (if \<forall>r \<in> set E. valid_timestamp r then None
        else Some \<lparr>signIns =
                     length (filter (\<lambda>r. \<not> valid_timestamp r \<and> action r = ''sign-in'') E),
                   signOuts =
                     length (filter (\<lambda>r. \<not> valid_timestamp r \<and> action r \<noteq> ''sign-in'') E)\<rparr>)
   \<and> filterByWindow tza type now E = filterByWindow tza type now (filter valid_timestamp E)
   \<and> filterRecordsByDateRange E (Some rng) =
       filterRecordsByDateRange (filter valid_timestamp E) (Some rng)
   \<and> getUserBreakdown (map (timestamp_update f) E) = getUserBreakdown E"
  using hourly_without_NaN [of tza E] hourly_NaN_bucket [of tza E]
    daily_without_Invalid [of tza E] daily_Invalid_bucket [of tza E]
    filterByWindow_valid [of tza type now E] filterRecordsByDateRange_valid [of E rng]
    getUserBreakdown_timestamps [of f E]
  by simp

theorem unparseable_timestamps_in_aggregation_witness:
  "\<not> (\<forall>r \<in> set [at_hour 1 9, sample_record 2 ''employee1'' ''sign-in'' None]. valid_timestamp r)
   \<and> map_of (getHourlyBreakdown utc [at_hour 1 9, sample_record 2 ''employee1'' ''sign-in'' None])
       NaN_key = Some 1
   \<and> map_of (getDailyBreakdown utc [at_hour 1 9, sample_record 2 ''employee1'' ''sign-in'' None])
       Invalid_Date = Some \<lparr>signIns = 1, signOuts = 0\<rparr>
   \<and> filterByWindow utc ''weekly'' (10 * msPerHour)
       [at_hour 1 9, sample_record 2 ''employee1'' ''sign-in'' None] = Some [at_hour 1 9]
   \<and> list_all valid_timestamp [at_hour 1 9]
   \<and> map_of (getHourlyBreakdown utc [at_hour 1 9]) NaN_key = None
   \<and> map_of (getDailyBreakdown utc [at_hour 1 9]) Invalid_Date = None"
  using unparseable_timestamps_in_aggregation
    [of utc "[at_hour 1 9, sample_record 2 ''employee1'' ''sign-in'' None]"
      "''weekly''" "10 * msPerHour"]
    unparseable_timestamps_in_aggregation [of utc "[at_hour 1 9]"]
  by (simp add: valid_timestamp_def at_hour_def sample_record_def filterByWindow_def
      date_ge_def msPerHour_def)

text \<open>
  C5: the counters of the daily breakdown of any event sequence add up to the number of
  events. The dates of the breakdown are distinct, the sign-in counters add up to the
  number of sign-in events and the sign-out counters to the number of all other events.
\<close>

theorem daily_breakdown_counts_each_event_once:
  "(\<Sum>(date, c) \<leftarrow> getDailyBreakdown tza E. signIns c + signOuts c) = length E
   \<and> distinct (map fst (getDailyBreakdown tza E))
   \<and> (\<Sum>(date, c) \<leftarrow> getDailyBreakdown tza E. signIns c) =
       length (filter (\<lambda>r. action r = ''sign-in'') E)
   \<and> (\<Sum>(date, c) \<leftarrow> getDailyBreakdown tza E. signOuts c) =
       length (filter (\<lambda>r. action r \<noteq> ''sign-in'') E)"
proof -
  have i: "(\<Sum>(date, c) \<leftarrow> getDailyBreakdown tza E. signIns c) =
       length (filter (\<lambda>r. action r = ''sign-in'') E)"
    by (simp add: getDailyBreakdown_def signIns_fold_count_day)
  have o: "(\<Sum>(date, c) \<leftarrow> getDailyBreakdown tza E. signOuts c) =
       length (filter (\<lambda>r. action r \<noteq> ''sign-in'') E)"
    by (simp add: getDailyBreakdown_def signOuts_fold_count_day)
  have "length (filter (\<lambda>r. action r = ''sign-in'') E)
        + length (filter (\<lambda>r. action r \<noteq> ''sign-in'') E) = length E"
    by (rule sum_length_filter_compl)
  then have "(\<Sum>(date, c) \<leftarrow> getDailyBreakdown tza E. signIns c + signOuts c) = length E"
    unfolding sum_counters_split i o .
  then show ?thesis using i o distinct_getDailyBreakdown by simp
qed

subsection \<open>Windows\<close>

text \<open>
  C3, as stated, fails on either path. The report route knows daily, weekly and monthly
  only and never reads the query string: a request for the type custom with a start and
  an end bound gets the error \<^verbatim>\<open>Invalid report type\<close>. The client-side report data
  fail on no window: for the type custom with the end bound missing the form passes no
  range and every record is reported, and so it is for an unknown type.
\<close>

theorem custom_report_with_bounds_refused:
  "get_report utc (sample_db [at_hour 1 9])
     \<lparr>param_type = ''custom'', query = [(''start'', ''1970-01-01''), (''end'', ''1970-01-02'')]\<rparr>
     (10 * msPerHour) = Inl Invalid_report_type
   \<and> report_form_dateRange ''custom'' ''1970-01-01'' [] = None
   \<and> data_records (gatherReportData utc [at_hour 1 9] ''custom'' None None (10 * msPerHour)) =
       [at_hour 1 9]
   \<and> data_records (gatherReportData utc [at_hour 1 9] ''yearly'' None None (10 * msPerHour)) =
       [at_hour 1 9]"
  by (simp add: get_report_def sample_db_def readData_attendance_def filterByWindow_def
      report_form_dateRange_def gatherReportData_def filterRecordsByDateRange_def Let_def)

text \<open>
  C3, amended: on a readable store the report route fails with an invalid-type error
  exactly when the type is outside daily, weekly and monthly; custom is refused whatever
  bounds come with it, and an unreadable store gives a server error instead. The
  client-side report data never fail on the window: whatever the type, a range with two
  valid bounds keeps exactly the events with start \<open>\<le>\<close> timestamp \<open>\<le>\<close> end, both bounds
  included, and without a range no event is filtered out by date. The report form passes
  no range when the type is custom and a bound is missing.
\<close>

theorem window_report_failures:
  "(attendance_json d = Some E \<longrightarrow>
      (get_report tza d req now = Inl Invalid_report_type
         \<longleftrightarrow> param_type req \<notin> {''daily'', ''weekly'', ''monthly''})
      \<and> ((\<exists>rep. get_report tza d req now = Inr rep)
         \<longleftrightarrow> param_type req \<in> {''daily'', ''weekly'', ''monthly''}))
   \<and> (attendance_json d = None \<longrightarrow> get_report tza d req now = Inl Server_error)
   \<and> data_records (gatherReportData tza E type (Some (Some s, Some e)) None now) =
       filter (\<lambda>r. \<exists>t. timestamp r = Some t \<and> s \<le> t \<and> t \<le> e) E
   \<and> data_records (gatherReportData tza E type None None now) = E
   \<and> data_type (gatherReportData tza E type dateRange users now) = type
   \<and> (startDate = [] \<or> endDate = []
        \<longrightarrow> report_form_dateRange ''custom'' startDate endDate = None)"
proof -
  have f: "startDate = [] \<or> endDate = []
        \<longrightarrow> report_form_dateRange ''custom'' startDate endDate = None"
    by (simp add: report_form_dateRange_def)
  have a: "(get_report tza d req now = Inl Invalid_report_type
         \<longleftrightarrow> param_type req \<notin> {''daily'', ''weekly'', ''monthly''})
      \<and> ((\<exists>rep. get_report tza d req now = Inr rep)
         \<longleftrightarrow> param_type req \<in> {''daily'', ''weekly'', ''monthly''})"
    if "attendance_json d = Some E"
    using that
    by (simp add: get_report_def readData_attendance_def filterByWindow_def Let_def)
  have b: "get_report tza d req now = Inl Server_error" if "attendance_json d = None"
    using that by (simp add: get_report_def readData_attendance_def Let_def)
  have c: "data_records (gatherReportData tza E type (Some (Some s, Some e)) None now) =
       filter (\<lambda>r. \<exists>t. timestamp r = Some t \<and> s \<le> t \<and> t \<le> e) E"
    by (auto simp: gatherReportData_def filterRecordsByDateRange_def date_ge_Some date_le_Some
        Let_def intro!: filter_cong)
  have d: "data_records (gatherReportData tza E type None None now) = E"
    by (simp add: gatherReportData_def filterRecordsByDateRange_def Let_def)
  have e: "data_type (gatherReportData tza E type dateRange users now) = type"
    by (simp add: gatherReportData_def Let_def)
  show ?thesis using a b c d e f by blast
qed

theorem window_report_failures_witness:
  "attendance_json (sample_db [at_hour 1 9, at_hour 2 30]) = Some [at_hour 1 9, at_hour 2 30]
   \<and> param_type \<lparr>param_type = ''yearly'', query = []\<rparr> \<notin> {''daily'', ''weekly'', ''monthly''}
   \<and> get_report utc (sample_db [at_hour 1 9, at_hour 2 30])
       \<lparr>param_type = ''yearly'', query = []\<rparr> (31 * msPerHour) = Inl Invalid_report_type
   \<and> data_records
       (gatherReportData utc [at_hour 1 9, at_hour 2 30] ''custom''
          (Some (Some (9 * msPerHour), Some (29 * msPerHour))) None (31 * msPerHour)) =
     [at_hour 1 9]
   \<and> report_form_dateRange ''custom'' ''1970-01-01'' [] = None
   \<and> attendance_json \<lparr>attendance_json = None, logs_json = Some [], writable = True\<rparr> = None
   \<and> get_report utc \<lparr>attendance_json = None, logs_json = Some [], writable = True\<rparr>
       \<lparr>param_type = ''weekly'', query = []\<rparr> (31 * msPerHour) = Inl Server_error"
  using window_report_failures [of "sample_db [at_hour 1 9, at_hour 2 30]"
      "[at_hour 1 9, at_hour 2 30]" utc "\<lparr>param_type = ''yearly'', query = []\<rparr>"
      "31 * msPerHour" "''custom''" "9 * msPerHour" "29 * msPerHour" _ _ "''1970-01-01''" "[]"]
    window_report_failures
      [of "\<lparr>attendance_json = None, logs_json = Some [], writable = True\<rparr>" _ utc
        "\<lparr>param_type = ''weekly'', query = []\<rparr>" "31 * msPerHour"]
  by (simp add: sample_db_def at_hour_def sample_record_def msPerHour_def)

text \<open>
  C8: the weekly report holds precisely the events whose timestamp is at least now minus
  7 days: every stored event timestamped exactly 7 days before now is in it, and no
  event timestamped exactly 8 days before now is.
\<close>

theorem weekly_window_boundary:
  assumes "attendance_json d = Some E"
  shows "\<exists>rep. get_report tza d \<lparr>param_type = ''weekly'', query = q\<rparr> now = Inr rep
           \<and> filterByWindow tza ''weekly'' now E = Some (report_records rep)
           \<and> report_records rep =
               filter (\<lambda>r. \<exists>t. timestamp r = Some t \<and> t \<ge> now - 7 * msPerDay) E
           \<and> (\<forall>r \<in> set E. timestamp r = Some (now - 7 * msPerDay)
                 \<longrightarrow> r \<in> set (report_records rep))
           \<and> (\<forall>r \<in> set E. timestamp r = Some (now - 8 * msPerDay)
                 \<longrightarrow> r \<notin> set (report_records rep))"
  using assms
  by (simp add: get_report_def readData_attendance_def weekly_filter msPerDay_def Let_def)

theorem weekly_window_boundary_witness:
  "attendance_json
     (sample_db [sample_record 1 ''employee1'' ''sign-in'' (Some (10 * msPerDay - 8 * msPerDay)),
                 sample_record 2 ''employee1'' ''sign-in'' (Some (10 * msPerDay - 7 * msPerDay))]) =
     Some [sample_record 1 ''employee1'' ''sign-in'' (Some (10 * msPerDay - 8 * msPerDay)),
           sample_record 2 ''employee1'' ''sign-in'' (Some (10 * msPerDay - 7 * msPerDay))]
   \<and> filterByWindow utc ''weekly'' (10 * msPerDay)
       [sample_record 1 ''employee1'' ''sign-in'' (Some (10 * msPerDay - 8 * msPerDay)),
        sample_record 2 ''employee1'' ''sign-in'' (Some (10 * msPerDay - 7 * msPerDay))] =
     Some [sample_record 2 ''employee1'' ''sign-in'' (Some (10 * msPerDay - 7 * msPerDay))]"
  using weekly_window_boundary
    [of "sample_db [sample_record 1 ''employee1'' ''sign-in'' (Some (10 * msPerDay - 8 * msPerDay)),
                    sample_record 2 ''employee1'' ''sign-in'' (Some (10 * msPerDay - 7 * msPerDay))]"
      "[sample_record 1 ''employee1'' ''sign-in'' (Some (10 * msPerDay - 8 * msPerDay)),
        sample_record 2 ''employee1'' ''sign-in'' (Some (10 * msPerDay - 7 * msPerDay))]"
      utc "[]" "10 * msPerDay"]
  by (auto simp: sample_db_def sample_record_def msPerDay_def)

subsection \<open>Peak hours\<close>



subsection \<open>Scores\<close>

text \<open>
  C9: for every count \<open>c\<close> of today's records the productivity score is
  \<open>min (75 + min (c * 2) 25) 100\<close>; it lies between 75 and 100, and a longer list of
  today's records never gives a lower score.
\<close>

theorem productivity_score_formula_range_mono:
  "calculateProductivityScore d = min (75 + min (length (todayRecords d) * 2) 25) 100
   \<and> 75 \<le> calculateProductivityScore d
   \<and> calculateProductivityScore d \<le> 100
   \<and> (length (todayRecords d) \<le> length (todayRecords d')
        \<longrightarrow> calculateProductivityScore d \<le> calculateProductivityScore d')"
  by (simp add: calculateProductivityScore_def Let_def min_def)

theorem productivity_score_witness:
  "length (todayRecords (gatherDashboardData utc [] (10 * msPerHour)))
     \<le> length (todayRecords (gatherDashboardData utc [at_hour 1 9] (10 * msPerHour)))
   \<and> calculateProductivityScore (gatherDashboardData utc [] (10 * msPerHour)) = 75
   \<and> calculateProductivityScore (gatherDashboardData utc [at_hour 1 9] (10 * msPerHour)) = 77"
  using productivity_score_formula_range_mono
    [of "gatherDashboardData utc [] (10 * msPerHour)"
      "gatherDashboardData utc [at_hour 1 9] (10 * msPerHour)"]
  by (simp add: gatherDashboardData_def calculateProductivityScore_def toDateString_def
      LocalTime_def utc_def msPerDay_def msPerHour_def at_hour_def sample_record_def)

subsection \<open>Anomalies\<close>

text \<open>
  C7: the anomalies are, in order, exactly the sign-in events whose hour differs from the
  mean sign-in hour by more than 3; an event with another action is never flagged. The
  mean is the sum of the hours of all sign-in events divided by their number when every
  sign-in timestamp parses; a sign-in with an unparseable timestamp makes the mean NaN,
  and then nothing is flagged.
\<close>

theorem detectAnomalies_mean_threshold:
  "map anomaly_record (detectAnomalies tza E) =
     filter (\<lambda>r. action r = ''sign-in'' \<and>
                 (\<exists>h m. getHours tza (timestamp r) = Some h \<and> avgSignInHour tza E = Some m
                        \<and> 3 < \<bar>real h - m\<bar>)) E
   \<and> (\<forall>a \<in> set (detectAnomalies tza E). action (anomaly_record a) = ''sign-in'')
   \<and> ((\<forall>r \<in> set E. action r = ''sign-in'' \<longrightarrow> timestamp r \<noteq> None)
        \<and> (\<exists>r \<in> set E. action r = ''sign-in'')
      \<longrightarrow> avgSignInHour tza E =
            Some (real (\<Sum>r \<leftarrow> filter (\<lambda>r. action r = ''sign-in'') E.
                          the (getHours tza (timestamp r)))
                  / real (length (filter (\<lambda>r. action r = ''sign-in'') E))))
   \<and> ((\<exists>r \<in> set E. action r = ''sign-in'' \<and> timestamp r = None)
      \<longrightarrow> detectAnomalies tza E = [])"
proof -
  have 1: "map anomaly_record (detectAnomalies tza E) =
     filter (\<lambda>r. action r = ''sign-in'' \<and>
                 (\<exists>h m. getHours tza (timestamp r) = Some h \<and> avgSignInHour tza E = Some m
                        \<and> 3 < \<bar>real h - m\<bar>)) E"
    by (simp add: detectAnomalies_records deviates_iff)
  have "set (map anomaly_record (detectAnomalies tza E)) \<subseteq> {r. action r = ''sign-in''}"
    unfolding 1 by auto
  then have 2: "\<forall>a \<in> set (detectAnomalies tza E). action (anomaly_record a) = ''sign-in''"
    by auto
  have 4: "detectAnomalies tza E = []"
    if "\<exists>r \<in> set E. action r = ''sign-in'' \<and> timestamp r = None"
  proof -
    have "map anomaly_record (detectAnomalies tza E) = []"
      unfolding 1 using avgSignInHour_NaN [OF that] by simp
    then show ?thesis by simp
  qed
  show ?thesis using 1 2 4 avgSignInHour_valid by blast
qed

theorem detectAnomalies_mean_threshold_witness:
  "list_all valid_timestamp [at_hour 1 9, at_hour 2 9, at_hour 3 9, at_hour 4 9, at_hour 5 2]
   \<and> (\<exists>r \<in> set [at_hour 1 9, at_hour 2 9, at_hour 3 9, at_hour 4 9, at_hour 5 2].
       action r = ''sign-in'')
   \<and> avgSignInHour utc [at_hour 1 9, at_hour 2 9, at_hour 3 9, at_hour 4 9, at_hour 5 2] =
       Some (38 / 5)
   \<and> detectAnomalies utc [at_hour 1 9, at_hour 2 9, at_hour 3 9, at_hour 4 9, at_hour 5 2] =
       [\<lparr>anomaly_type = ''unusual_time'', anomaly_record = at_hour 5 2,
         message_hour = Some 2, message_average = Some 8\<rparr>]
   \<and> (\<exists>r \<in> set [at_hour 1 9, at_hour 2 2, sample_record 3 ''employee1'' ''sign-in'' None].
         action r = ''sign-in'' \<and> timestamp r = None)
   \<and> detectAnomalies utc
         [at_hour 1 9, at_hour 2 2, sample_record 3 ''employee1'' ''sign-in'' None] = []"
  using detectAnomalies_mean_threshold
    [of utc "[at_hour 1 9, at_hour 2 9, at_hour 3 9, at_hour 4 9, at_hour 5 2]"]
    detectAnomalies_mean_threshold
    [of utc "[at_hour 1 9, at_hour 2 2, sample_record 3 ''employee1'' ''sign-in'' None]"]
  by (simp add: detectAnomalies_def avgSignInHour_def signInHours_def sum_hours_def
      add_hour_def deviates_def Math_round_def getHours_def LocalTime_def
      utc_def msPerHour_def at_hour_def sample_record_def valid_timestamp_def Let_def)

text \<open>
  C10: on an event sequence without a sign-in event, the empty one included, the mean
  sign-in hour is \<open>0 / 0\<close>, that is NaN, and the list of anomalies is empty; nothing fails.
\<close>

theorem detectAnomalies_no_signins:
  assumes "\<forall>r \<in> set E. action r \<noteq> ''sign-in''"
  shows "detectAnomalies tza E = [] \<and> avgSignInHour tza E = None"
  using assms
  by (simp add: detectAnomalies_def avgSignInHour_def no_signin_hours sum_hours_def)

theorem detectAnomalies_no_signins_witness:
  "list_all (\<lambda>r. action r \<noteq> ''sign-in'')
     [sample_record 1 ''employee1'' ''sign-out'' (Some (17 * msPerHour)),
      sample_record 2 ''employee1'' ''sign-out'' None]
   \<and> detectAnomalies utc
       [sample_record 1 ''employee1'' ''sign-out'' (Some (17 * msPerHour)),
        sample_record 2 ''employee1'' ''sign-out'' None] = []
   \<and> detectAnomalies utc [] = []"
  using detectAnomalies_no_signins
    [of "[sample_record 1 ''employee1'' ''sign-out'' (Some (17 * msPerHour)),
          sample_record 2 ''employee1'' ''sign-out'' None]" utc]
    detectAnomalies_no_signins [of "[]" utc]
  by (simp add: sample_record_def)

end
